theory Spec2Isabelle
  imports Main "HOL-Library.Sublist"
begin

section \<open>JavaScript values at the gateway boundary\<close>

text \<open>
  The API client (\<^verbatim>\<open>api/client.ts\<close>) passes parsed JSON through untyped, so the
  gateway level works on JSON values. Numbers are restricted to integers; a property
  read that yields \<^verbatim>\<open>undefined\<close> is \<open>None\<close>.
\<close>

datatype json =
    JNull
  | JBool bool
  | JNum int
  | JStr string
  | JArr "json list"
  | JObj "(string \<times> json) list"

text \<open>
  A thrown value: \<open>Error m\<close> is any instance of \<^verbatim>\<open>Error\<close> (including the
  \<^verbatim>\<open>TypeError\<close> and \<^verbatim>\<open>SyntaxError\<close> subclasses) with message \<open>m\<close>;
  \<open>NonError\<close> is any other thrown value.
\<close>

datatype thrown = Error string | NonError

text \<open>\<^verbatim>\<open>err instanceof Error ? err.message : fallback\<close>\<close>

fun message_or :: "thrown \<Rightarrow> string \<Rightarrow> string" where
  "message_or (Error m) fallback = m"
| "message_or NonError fallback = fallback"

text \<open>JavaScript truthiness of a JSON value, as \<^verbatim>\<open>||\<close> and \<^verbatim>\<open>if\<close> test it.\<close>

fun truthy :: "json \<Rightarrow> bool" where
  "truthy JNull = False"
| "truthy (JBool b) = b"
| "truthy (JNum n) = (n \<noteq> 0)"
| "truthy (JStr s) = (s \<noteq> [])"
| "truthy (JArr xs) = True"
| "truthy (JObj kvs) = True"

text \<open>Truthiness of a \<^verbatim>\<open>string | null\<close>: null and the empty string are falsy.\<close>

fun truthy_str :: "string option \<Rightarrow> bool" where
  "truthy_str None = False"
| "truthy_str (Some s) = (s \<noteq> [])"

text \<open>Decimal digits of a natural number, for \<^verbatim>\<open>ToString\<close> of a number.\<close>

function show_nat :: "nat \<Rightarrow> string" where
  "show_nat n =
     (if n < 10 then [char_of (48 + n)]
      else show_nat (n div 10) @ [char_of (48 + n mod 10)])"
  by pat_completeness auto
termination
  by (relation "measure id") auto

fun join_comma :: "string list \<Rightarrow> string" where
  "join_comma [] = []"
| "join_comma [s] = s"
| "join_comma (s # t # ss) = s @ '','' @ join_comma (t # ss)"

text \<open>
  \<^verbatim>\<open>ToString\<close>, which \<^verbatim>\<open>new Error(x)\<close> applies to its argument. An array joins its
  elements with commas, a null element contributing the empty string; a plain object
  prints as \<^verbatim>\<open>[object Object]\<close>.
\<close>

fun to_string :: "json \<Rightarrow> string" where
  "to_string JNull = ''null''"
| "to_string (JBool b) = (if b then ''true'' else ''false'')"
| "to_string (JNum n) = (if n < 0 then ''-'' @ show_nat (nat (- n)) else show_nat (nat n))"
| "to_string (JStr s) = s"
| "to_string (JArr xs) = join_comma (map (\<lambda>x. if x = JNull then [] else to_string x) xs)"
| "to_string (JObj kvs) = ''[object Object]''"

text \<open>
  The property read \<^verbatim>\<open>error.detail\<close>. On \<^verbatim>\<open>null\<close> it throws a TypeError (whose
  message is the engine's); on an object it is the value of the last \<^verbatim>\<open>detail\<close>
  key (\<^verbatim>\<open>JSON.parse\<close> keeps the last duplicate) or undefined; on every other value
  it is undefined.
\<close>

definition null_read_message :: string where
  "null_read_message = ''Cannot read properties of null''"

fun get_detail :: "json \<Rightarrow> thrown + json option" where
  "get_detail JNull = Inl (Error null_read_message)"
| "get_detail (JObj kvs) = Inr (map_of (rev kvs) ''detail'')"
| "get_detail (JBool b) = Inr None"
| "get_detail (JNum n) = Inr None"
| "get_detail (JStr s) = Inr None"
| "get_detail (JArr xs) = Inr None"

text \<open>\<^verbatim>\<open>detail || statusText\<close>, converted to the message of the new Error.\<close>

fun detail_or :: "json option \<Rightarrow> string \<Rightarrow> string" where
  "detail_or None st = st"
| "detail_or (Some d) st = (if truthy d then to_string d else st)"

section \<open>Session state: credential and durable store\<close>

text \<open>
  \<^verbatim>\<open>let authToken: string | null = localStorage.getItem("token")\<close> is module state;
  \<open>localStorage\<close> is the browser's durable key-value store and \<open>href\<close> is
  \<^verbatim>\<open>window.location.href\<close>. Writes to the store are taken to succeed.
\<close>

record client =
  authToken :: "string option"
  localStorage :: "string \<rightharpoonup> string"
  href :: string

text \<open>Module initialisation on process start.\<close>

definition load_client :: "(string \<rightharpoonup> string) \<Rightarrow> string \<Rightarrow> client" where
  "load_client store location =
     \<lparr>authToken = store ''token'', localStorage = store, href = location\<rparr>"

definition setToken :: "string option \<Rightarrow> client \<Rightarrow> client" where
  "setToken token c =
     (let c = c\<lparr>authToken := token\<rparr> in
      case token of
        Some t \<Rightarrow>
          if t \<noteq> [] then c\<lparr>localStorage := (localStorage c)(''token'' \<mapsto> t)\<rparr>
          else c\<lparr>localStorage := (localStorage c)(''token'' := None)\<rparr>
      | None \<Rightarrow> c\<lparr>localStorage := (localStorage c)(''token'' := None)\<rparr>)"

definition getToken :: "client \<Rightarrow> string option" where
  "getToken c = authToken c"

section \<open>The request function\<close>

text \<open>
  A request body is either the text \<^verbatim>\<open>JSON.stringify(data)\<close>, represented by the
  value it serialises, or a \<^verbatim>\<open>FormData\<close> with its named parts.
\<close>

datatype req_body = JsonText json | FormData "string list"

record request_init =
  req_method :: "string option"
  req_headers :: "string \<rightharpoonup> string"
  req_payload :: "req_body option"

record fetch_call =
  url :: string
  f_method :: "string option"
  f_headers :: "string \<rightharpoonup> string"
  f_payload :: "req_body option"

text \<open>
  What the network delivers. \<open>json_body\<close> is the outcome of \<^verbatim>\<open>res.json()\<close>:
  \<open>Inl m\<close> when the body does not parse (a SyntaxError with message \<open>m\<close>).
  \<^verbatim>\<open>res.ok\<close> is defined by the Fetch standard as a status in 200..299.
\<close>

record response =
  status :: nat
  statusText :: string
  json_body :: "string + json"

datatype fetch_outcome = Rejected string | Responded response

definition ok :: "response \<Rightarrow> bool" where
  "ok res = (200 \<le> status res \<and> status res \<le> 299)"

definition API_BASE :: string where
  "API_BASE = ''/api''"

definition no_options :: request_init where
  "no_options = \<lparr>req_method = None, req_headers = Map.empty, req_payload = None\<rparr>"

text \<open>Lines 203-215 of \<^verbatim>\<open>request\<close>: build the headers and issue the fetch.\<close>

definition fetch_of :: "client \<Rightarrow> string \<Rightarrow> request_init \<Rightarrow> fetch_call" where
  "fetch_of c path options =
     (let headers = req_headers options;
          headers = (case authToken c of
                       None \<Rightarrow> headers
                     | Some t \<Rightarrow>
                         if t \<noteq> [] then headers(''Authorization'' \<mapsto> ''Bearer '' @ t)
                         else headers);
          headers = (case req_payload options of
                       Some (FormData parts) \<Rightarrow> headers
                     | _ \<Rightarrow> headers(''Content-Type'' \<mapsto> ''application/json''))
      in \<lparr>url = API_BASE @ path, f_method = req_method options,
          f_headers = headers, f_payload = req_payload options\<rparr>)"

text \<open>
  Lines 217-227 of \<^verbatim>\<open>request\<close>: what happens to the fetch's outcome. The result is
  \<open>Inl\<close> for a rejected promise, \<open>Inr None\<close> for \<^verbatim>\<open>undefined\<close> (status 204) and
  \<open>Inr (Some j)\<close> for the parsed body.
\<close>

definition settle_request ::
  "client \<Rightarrow> string \<Rightarrow> fetch_outcome \<Rightarrow> client \<times> (thrown + json option)" where
  "settle_request c path outcome =
     (case outcome of
        Rejected m \<Rightarrow> (c, Inl (Error m))
      | Responded res \<Rightarrow>
          if \<not> ok res then
            (let error = (case json_body res of
                            Inl m \<Rightarrow> JObj [(''detail'', JStr (statusText res))]
                          | Inr j \<Rightarrow> j);
                 c' = (if status res = 401 \<and> \<not> prefix ''/auth/login'' path
                       then (setToken None c)\<lparr>href := ''/login''\<rparr>
                       else c)
             in (c', Inl (case get_detail error of
                            Inl e \<Rightarrow> e
                          | Inr d \<Rightarrow> Error (detail_or d (statusText res)))))
          else if status res = 204 then (c, Inr None)
          else (case json_body res of
                  Inl m \<Rightarrow> (c, Inl (Error m))
                | Inr j \<Rightarrow> (c, Inr (Some j))))"

text \<open>
  The whole of \<^verbatim>\<open>request\<close>: the new module state, the fetches issued (always exactly
  the one of line 215) and the settled result.
\<close>

definition request ::
  "client \<Rightarrow> string \<Rightarrow> request_init \<Rightarrow> fetch_outcome
     \<Rightarrow> client \<times> fetch_call list \<times> (thrown + json option)" where
  "request c path options outcome =
     (let call = fetch_of c path options;
          (c', result) = settle_request c path outcome
      in (c', [call], result))"

text \<open>
  The operations of \<^verbatim>\<open>api\<close> that the workflow uses. Each takes the JavaScript
  object it is called with (as the JSON value that \<^verbatim>\<open>JSON.stringify\<close> serialises);
  the TypeScript result types are erased, so the result is whatever \<open>request\<close> yields.
\<close>

definition post_json :: "json \<Rightarrow> request_init" where
  "post_json data =
     \<lparr>req_method = Some ''POST'', req_headers = Map.empty, req_payload = Some (JsonText data)\<rparr>"

definition api_login ::
  "client \<Rightarrow> string \<Rightarrow> string \<Rightarrow> fetch_outcome
     \<Rightarrow> client \<times> fetch_call list \<times> (thrown + json option)" where
  "api_login c username password =
     request c ''/auth/login''
       (post_json (JObj [(''username'', JStr username), (''password'', JStr password)]))"

definition api_getMe ::
  "client \<Rightarrow> fetch_outcome \<Rightarrow> client \<times> fetch_call list \<times> (thrown + json option)" where
  "api_getMe c = request c ''/auth/me'' no_options"


definition api_createCard ::
  "client \<Rightarrow> json \<Rightarrow> fetch_outcome \<Rightarrow> client \<times> fetch_call list \<times> (thrown + json option)" where
  "api_createCard c data = request c ''/cards'' (post_json data)"

definition api_acceptCard ::
  "client \<Rightarrow> string \<Rightarrow> fetch_outcome \<Rightarrow> client \<times> fetch_call list \<times> (thrown + json option)" where
  "api_acceptCard c cardId =
     request c (''/cards/'' @ cardId @ ''/accept'')
       \<lparr>req_method = Some ''POST'', req_headers = Map.empty, req_payload = None\<rparr>"

definition api_checkDuplicate ::
  "client \<Rightarrow> json \<Rightarrow> fetch_outcome \<Rightarrow> client \<times> fetch_call list \<times> (thrown + json option)" where
  "api_checkDuplicate c data = request c ''/duplicates/check'' (post_json data)"


section \<open>The translate page (TranslatePage.tsx)\<close>

datatype phase = Translating | Choosing | Formatting | Preview | Saved

text \<open>
  \<^verbatim>\<open>TranslationOption\<close>, with the fields the page reads from it (lines 60-63, 147-151).
\<close>

record translation_option =
  opt_word :: string
  opt_translation :: string
  opt_part_of_speech :: "string option"
  opt_context :: "string option"

record card_data =
  note_type_id :: string
  card_fields :: "(string \<times> string) list"

record props =
  word :: string
  deckId :: string

text \<open>
  The calls the pages make on \<^verbatim>\<open>api\<close>, with their arguments in the order of the
  object literal at the call site. At the page level a call is represented by its
  arguments and by its outcome as TypeScript types it.
\<close>

datatype api_call =
    Translate string string string string
  | FormatCard string string string "string option" "string option" "string option"
  | CreateCard string string "(string \<times> string) list" string
  | AcceptCard string
  | GetMe
  | CheckDuplicate string string string

text \<open>
  The React state of the component (lines 13-22), and two logs that the component does
  not hold: every call issued on \<^verbatim>\<open>api\<close> and every phase set, in order.
\<close>

record page =
  phase :: phase
  error :: string
  translation_list :: "translation_option list"
  chosenTranslation :: "translation_option option"
  cardData :: "card_data option"
  saving :: bool
  addingNative :: bool
  calls :: "api_call list"
  visited :: "phase list"

definition initial_page :: page where
  "initial_page =
     \<lparr>phase = Translating, error = [], translation_list = [], chosenTranslation = None,
      cardData = None, saving = False, addingNative = False,
      calls = [], visited = [Translating]\<rparr>"

definition setPhase :: "phase \<Rightarrow> page \<Rightarrow> page" where
  "setPhase ph s = s\<lparr>phase := ph, visited := visited s @ [ph]\<rparr>"

definition issue :: "api_call \<Rightarrow> page \<Rightarrow> page" where
  "issue c s = s\<lparr>calls := calls s @ [c]\<rparr>"

text \<open>
  An async handler runs until its next \<^verbatim>\<open>await\<close>. A continuation names the
  \<^verbatim>\<open>await\<close> at which a handler is suspended, with what its closure holds:
  \<open>AwaitFormat native\<close> is line 58, \<open>native\<close> telling whether \<open>formatWithTranslation\<close>
  was called from \<open>handleAddNativeTranslation\<close> (whose \<^verbatim>\<open>finally\<close> then still has to
  run); \<open>AwaitGetMe option\<close> is line 97 with the \<open>chosenTranslation\<close> of the render
  that was clicked.
\<close>

datatype cont =
    AwaitTranslate
  | AwaitFormat bool
  | AwaitCreate
  | AwaitAccept
  | AwaitGetMe translation_option

text \<open>The value an awaited call resolves to.\<close>

datatype reply =
    Translations "translation_option list"
  | Draft card_data
  | Created string
  | Accepted
  | Me "string option"

text \<open>
  Each piece of a handler below returns the state at its next suspension together with
  the continuation awaited there, or \<open>None\<close> when the handler has returned.
\<close>

text \<open>\<open>formatWithTranslation\<close>, lines 54-58, up to the await.\<close>

definition formatWithTranslation_begin ::
  "props \<Rightarrow> page \<Rightarrow> translation_option \<Rightarrow> string option \<Rightarrow> bool \<Rightarrow> page \<times> cont option" where
  "formatWithTranslation_begin p s option nativeLanguage native =
     (let s = s\<lparr>chosenTranslation := Some option\<rparr>;
          s = setPhase Formatting s;
          s = s\<lparr>error := []\<rparr>;
          s = issue (FormatCard (deckId p) (opt_word option) (opt_translation option)
                       (opt_part_of_speech option) (opt_context option) nativeLanguage) s
      in (s, Some (AwaitFormat native)))"

text \<open>
  \<open>formatWithTranslation\<close>, lines 66-71, after the await; it never throws. When it was
  called from \<open>handleAddNativeTranslation\<close>, that handler's \<^verbatim>\<open>finally\<close> (line 106)
  runs on return.
\<close>

definition on_format :: "page \<Rightarrow> bool \<Rightarrow> thrown + card_data \<Rightarrow> page \<times> cont option" where
  "on_format s native r =
     (let s = (case r of
                 Inr result \<Rightarrow> setPhase Preview (s\<lparr>cardData := Some result\<rparr>)
               | Inl err \<Rightarrow>
                   setPhase Choosing (s\<lparr>error := message_or err ''Card formatting failed''\<rparr>))
      in (if native then s\<lparr>addingNative := False\<rparr> else s, None))"

text \<open>\<open>loadTranslations\<close>, lines 31-39, up to the await.\<close>

definition loadTranslations_begin :: "props \<Rightarrow> page \<Rightarrow> page \<times> cont option" where
  "loadTranslations_begin p s =
     (let s = setPhase Translating s;
          s = s\<lparr>error := []\<rparr>;
          s = issue (Translate (word p) [] [] (deckId p)) s
      in (s, Some AwaitTranslate))"

text \<open>\<open>loadTranslations\<close>, lines 40-50, after the await.\<close>

definition on_translate ::
  "props \<Rightarrow> page \<Rightarrow> thrown + translation_option list \<Rightarrow> page \<times> cont option" where
  "on_translate p s r =
     (case r of
        Inr result_translations \<Rightarrow>
          (let s = s\<lparr>translation_list := result_translations\<rparr> in
           if length result_translations = 1
           then formatWithTranslation_begin p s (result_translations ! 0) None False
           else (setPhase Choosing s, None))
      | Inl err \<Rightarrow>
          (setPhase Choosing (s\<lparr>error := message_or err ''Translation failed''\<rparr>), None))"

text \<open>\<open>handleAccept\<close>, lines 75-83, up to the first await.\<close>

definition handleAccept_begin :: "props \<Rightarrow> page \<Rightarrow> page \<times> cont option" where
  "handleAccept_begin p s =
     (case cardData s of
        None \<Rightarrow> (s, None)
      | Some cd \<Rightarrow>
          (let s = s\<lparr>saving := True\<rparr>;
               s = issue (CreateCard (deckId p) (note_type_id cd) (card_fields cd) (word p)) s
           in (s, Some AwaitCreate)))"

text \<open>\<open>handleAccept\<close>, line 84: the created card's id goes straight to \<open>acceptCard\<close>.\<close>

definition on_create :: "page \<Rightarrow> thrown + string \<Rightarrow> page \<times> cont option" where
  "on_create s r =
     (case r of
        Inr result_id \<Rightarrow> (issue (AcceptCard result_id) s, Some AwaitAccept)
      | Inl err \<Rightarrow>
          (s\<lparr>error := message_or err ''Failed to save card'', saving := False\<rparr>, None))"

text \<open>\<open>handleAccept\<close>, lines 85-90.\<close>

definition on_accept :: "page \<Rightarrow> thrown + unit \<Rightarrow> page \<times> cont option" where
  "on_accept s r =
     (case r of
        Inr u \<Rightarrow> ((setPhase Saved s)\<lparr>saving := False\<rparr>, None)
      | Inl err \<Rightarrow>
          (s\<lparr>error := message_or err ''Failed to save card'', saving := False\<rparr>, None))"

text \<open>\<open>handleAddNativeTranslation\<close>, lines 94-97, up to the await.\<close>

definition handleAddNativeTranslation_begin :: "page \<Rightarrow> page \<times> cont option" where
  "handleAddNativeTranslation_begin s =
     (case chosenTranslation s of
        None \<Rightarrow> (s, None)
      | Some option \<Rightarrow>
          (let s = s\<lparr>addingNative := True\<rparr>;
               s = issue GetMe s
           in (s, Some (AwaitGetMe option))))"

text \<open>\<open>handleAddNativeTranslation\<close>, lines 98-107, after the await.\<close>

definition on_getMe ::
  "props \<Rightarrow> page \<Rightarrow> translation_option \<Rightarrow> thrown + string option \<Rightarrow> page \<times> cont option" where
  "on_getMe p s option r =
     (case r of
        Inr native_language \<Rightarrow>
          if \<not> truthy_str native_language
          then (s\<lparr>error := ''Please set your native language in Settings first.'',
                  addingNative := False\<rparr>, None)
          else formatWithTranslation_begin p s option native_language True
      | Inl err \<Rightarrow>
          (s\<lparr>error := message_or err ''Failed to add native translation'',
             addingNative := False\<rparr>, None))"

text \<open>
  Resuming a suspended handler with the outcome of the call it awaits. A reply of the
  wrong kind for the call leaves the handler suspended.
\<close>

fun resume :: "props \<Rightarrow> page \<Rightarrow> cont \<Rightarrow> thrown + reply \<Rightarrow> page \<times> cont option" where
  "resume p s AwaitTranslate (Inl err) = on_translate p s (Inl err)"
| "resume p s AwaitTranslate (Inr (Translations ts)) = on_translate p s (Inr ts)"
| "resume p s (AwaitFormat native) (Inl err) = on_format s native (Inl err)"
| "resume p s (AwaitFormat native) (Inr (Draft d)) = on_format s native (Inr d)"
| "resume p s AwaitCreate (Inl err) = on_create s (Inl err)"
| "resume p s AwaitCreate (Inr (Created i)) = on_create s (Inr i)"
| "resume p s AwaitAccept (Inl err) = on_accept s (Inl err)"
| "resume p s AwaitAccept (Inr Accepted) = on_accept s (Inr ())"
| "resume p s (AwaitGetMe option) (Inl err) = on_getMe p s option (Inl err)"
| "resume p s (AwaitGetMe option) (Inr (Me l)) = on_getMe p s option (Inr l)"
| "resume p s k r = (s, Some k)"

text \<open>
  A handler run to completion: the outcomes of the calls it awaits are given in the
  order in which it awaits them.
\<close>

fun drive :: "props \<Rightarrow> page \<times> cont option \<Rightarrow> (thrown + reply) list \<Rightarrow> page" where
  "drive p (s, None) rs = s"
| "drive p (s, Some k) [] = s"
| "drive p (s, Some k) (r # rs) = drive p (resume p s k r) rs"

definition loadTranslations :: "props \<Rightarrow> page \<Rightarrow> (thrown + reply) list \<Rightarrow> page" where
  "loadTranslations p s rs = drive p (loadTranslations_begin p s) rs"

definition formatWithTranslation ::
  "props \<Rightarrow> page \<Rightarrow> translation_option \<Rightarrow> string option \<Rightarrow> (thrown + reply) list \<Rightarrow> page" where
  "formatWithTranslation p s option nativeLanguage rs =
     drive p (formatWithTranslation_begin p s option nativeLanguage False) rs"

definition handleAccept :: "props \<Rightarrow> page \<Rightarrow> (thrown + reply) list \<Rightarrow> page" where
  "handleAccept p s rs = drive p (handleAccept_begin p s) rs"

definition handleAddNativeTranslation :: "props \<Rightarrow> page \<Rightarrow> (thrown + reply) list \<Rightarrow> page" where
  "handleAddNativeTranslation p s rs = drive p (handleAddNativeTranslation_begin s) rs"

text \<open>Mounting the component: the initial state, then the effect of lines 25-28.\<close>

definition mount :: "props \<Rightarrow> page \<times> cont option" where
  "mount p = (if word p = [] then (initial_page, None) else loadTranslations_begin p initial_page)"

text \<open>
  What the render (lines 110-233) offers: the buttons that can be clicked, a disabled
  button being left out, and the error line when one is shown.
\<close>

datatype button =
    BackToWords
  | Candidate nat
  | AcceptCardButton
  | AddNativeButton
  | Reject
  | TranslateAnother
  | NewPhoto

definition buttons :: "props \<Rightarrow> page \<Rightarrow> button list" where
  "buttons p s =
     (if word p = [] then [BackToWords]
      else case phase s of
        Translating \<Rightarrow> []
      | Choosing \<Rightarrow> map Candidate [0 ..< length (translation_list s)] @ [BackToWords]
      | Formatting \<Rightarrow> []
      | Saved \<Rightarrow> [TranslateAnother, NewPhoto]
      | Preview \<Rightarrow>
          (case cardData s of
             None \<Rightarrow> []
           | Some cd \<Rightarrow>
               (if saving s then [] else [AcceptCardButton]) @
               (if addingNative s then [] else [AddNativeButton]) @ [Reject]))"

definition shown_error :: "props \<Rightarrow> page \<Rightarrow> string option" where
  "shown_error p s =
     (if word p \<noteq> [] \<and> (phase s = Choosing \<or> phase s = Preview) \<and> error s \<noteq> []
      then Some (error s) else None)"

subsection \<open>The page as an event-driven machine\<close>

text \<open>
  Between two events the mounted component is its React state, the props of its last
  render, and the handlers suspended at an \<^verbatim>\<open>await\<close>, each with exactly one call on
  \<^verbatim>\<open>api\<close> in flight. A suspended handler keeps the props of the render whose
  closure it is.
\<close>

record session =
  ui :: page
  current :: props
  pending :: "(props \<times> cont) list"

text \<open>
  What can happen to a mounted page: a click, the settling of a pending call, and a
  render with new props, when the selected word or deck of App.tsx changes while the
  page stays mounted.
\<close>

datatype event = Click button | Settle props cont "thrown + reply" | Rerender props

text \<open>
  A click runs the \<^verbatim>\<open>onClick\<close> handler of a button that the current render offers;
  a click on anything else does nothing. The navigation buttons leave the page and
  start no call, so they leave this machine where it is.
\<close>

definition click :: "props \<Rightarrow> page \<Rightarrow> button \<Rightarrow> page \<times> cont option" where
  "click p s b =
     (if b \<in> set (buttons p s) then
        (case b of
           AcceptCardButton \<Rightarrow> handleAccept_begin p s
         | AddNativeButton \<Rightarrow> handleAddNativeTranslation_begin s
         | Candidate i \<Rightarrow> formatWithTranslation_begin p s (translation_list s ! i) None False
         | _ \<Rightarrow> (s, None))
      else (s, None))"

text \<open>
  The effect of lines 25-28 has the dependency list \<^verbatim>\<open>[word]\<close>: on a render whose
  word differs from that of the render before, it runs again, and for a non-empty word
  starts \<open>loadTranslations\<close> with the new props.
\<close>

definition rerender :: "props \<Rightarrow> props \<Rightarrow> page \<Rightarrow> page \<times> cont option" where
  "rerender p p' s =
     (if word p' \<noteq> word p \<and> word p' \<noteq> [] then loadTranslations_begin p' s else (s, None))"

definition suspended :: "props \<Rightarrow> cont option \<Rightarrow> (props \<times> cont) list" where
  "suspended p k = (case k of None \<Rightarrow> [] | Some k' \<Rightarrow> [(p, k')])"

fun step :: "session \<Rightarrow> event \<Rightarrow> session" where
  "step ss (Click b) =
     (let (s, k) = click (current ss) (ui ss) b
      in \<lparr>ui = s, current = current ss, pending = pending ss @ suspended (current ss) k\<rparr>)"
| "step ss (Settle p k r) =
     (if (p, k) \<in> set (pending ss) then
        (let (s, k') = resume p (ui ss) k r
         in \<lparr>ui = s, current = current ss,
             pending = remove1 (p, k) (pending ss) @ suspended p k'\<rparr>)
      else ss)"
| "step ss (Rerender p') =
     (let (s, k) = rerender (current ss) p' (ui ss)
      in \<lparr>ui = s, current = p', pending = pending ss @ suspended p' k\<rparr>)"

definition mounted :: "props \<Rightarrow> session" where
  "mounted p = (let (s, k) = mount p in \<lparr>ui = s, current = p, pending = suspended p k\<rparr>)"

definition run :: "props \<Rightarrow> event list \<Rightarrow> session" where
  "run p evs = foldl step (mounted p) evs"

text \<open>
  The calls in flight, by the handler that awaits them: the Accept handler awaits
  \<open>createCard\<close> and \<open>acceptCard\<close>, the Add Native Translation handler the profile read
  and its format call.
\<close>

fun is_accept_op :: "cont \<Rightarrow> bool" where
  "is_accept_op AwaitCreate = True"
| "is_accept_op AwaitAccept = True"
| "is_accept_op k = False"

fun is_native_op :: "cont \<Rightarrow> bool" where
  "is_native_op (AwaitGetMe option) = True"
| "is_native_op (AwaitFormat native) = native"
| "is_native_op k = False"

definition creates_in_flight :: "session \<Rightarrow> nat" where
  "creates_in_flight ss = length (filter (\<lambda>x. snd x = AwaitCreate) (pending ss))"

definition accepts_in_flight :: "session \<Rightarrow> nat" where
  "accepts_in_flight ss = length (filter (\<lambda>x. is_accept_op (snd x)) (pending ss))"

definition natives_in_flight :: "session \<Rightarrow> nat" where
  "natives_in_flight ss = length (filter (\<lambda>x. is_native_op (snd x)) (pending ss))"

fun is_create :: "api_call \<Rightarrow> bool" where
  "is_create (CreateCard d n f w) = True"
| "is_create c = False"

text \<open>A run of Accept attempts, each with the outcomes of its own calls.\<close>

definition accept_attempts :: "props \<Rightarrow> page \<Rightarrow> (thrown + reply) list list \<Rightarrow> page" where
  "accept_attempts p s attempts = foldl (handleAccept p) s attempts"

text \<open>A run of Add Native Translation invocations.\<close>

definition add_native_invocations ::
  "props \<Rightarrow> page \<Rightarrow> (thrown + reply) list list \<Rightarrow> page" where
  "add_native_invocations p s invocations = foldl (handleAddNativeTranslation p) s invocations"

section \<open>The word selection page (WordSelectPage.tsx)\<close>

record verdict =
  is_duplicate :: bool
  duplicate_of_id :: "string option"
  explanation :: "string option"

record duplicate_info =
  dup_word :: string
  dup_explanation :: string
  dup_duplicate_of_id :: "string option"

text \<open>
  The component's state (\<open>checking_word\<close>, \<open>duplicate\<close>), what it reaches outside itself
  (\<open>selectedWord\<close> through \<^verbatim>\<open>onWordSelected\<close>, \<open>route\<close> through \<^verbatim>\<open>navigate\<close>), and
  the log of the calls it issues.
\<close>

record word_page =
  checking_word :: "string option"
  duplicate :: "duplicate_info option"
  selectedWord :: string
  route :: string
  checks :: "api_call list"

definition select_word :: "word_page \<Rightarrow> string \<Rightarrow> word_page" where
  "select_word s w = s\<lparr>selectedWord := w, route := ''/translate''\<rparr>"

text \<open>
  \<open>handleWordClick\<close>, lines 442-456, up to the await; the flag tells whether the
  handler is suspended there.
\<close>

definition handleWordClick_begin :: "string \<Rightarrow> word_page \<Rightarrow> string \<Rightarrow> word_page \<times> bool" where
  "handleWordClick_begin deck s w =
     (if deck = [] then (select_word s w, False)
      else (s\<lparr>checking_word := Some w, duplicate := None,
               checks := checks s @ [CheckDuplicate w deck []]\<rparr>, True))"

text \<open>\<open>handleWordClick\<close>, lines 457-474, after the await.\<close>

definition on_check :: "word_page \<Rightarrow> string \<Rightarrow> thrown + verdict \<Rightarrow> word_page" where
  "on_check s w r =
     (let s = (case r of
                 Inr result \<Rightarrow>
                   if is_duplicate result then
                     s\<lparr>duplicate := Some
                         \<lparr>dup_word = w,
                          dup_explanation =
                            (case explanation result of
                               Some e \<Rightarrow>
                                 if e \<noteq> [] then e
                                 else ''This word may already exist in your deck.''
                             | None \<Rightarrow> ''This word may already exist in your deck.''),
                          dup_duplicate_of_id = duplicate_of_id result\<rparr>\<rparr>
                   else select_word s w
               | Inl err \<Rightarrow> select_word s w)
      in s\<lparr>checking_word := None\<rparr>)"

definition handleWordClick :: "string \<Rightarrow> word_page \<Rightarrow> string \<Rightarrow> thrown + verdict \<Rightarrow> word_page" where
  "handleWordClick deck s w r =
     (let (s', waiting) = handleWordClick_begin deck s w
      in if waiting then on_check s' w r else s')"

definition proceedAnyway :: "word_page \<Rightarrow> word_page" where
  "proceedAnyway s =
     (case duplicate s of Some d \<Rightarrow> select_word s (dup_word d) | None \<Rightarrow> s)"

definition initial_word_page :: "string \<Rightarrow> word_page" where
  "initial_word_page selected =
     \<lparr>checking_word = None, duplicate = None, selectedWord = selected,
      route = ''/words'', checks = []\<rparr>"

text \<open>
  The word page as a machine: \<open>in_flight\<close> holds the word of every duplicate check
  not yet settled. An event of the user carries the props of the render in which it
  happens, the selected deck and the word list. The word buttons are rendered for a
  non-empty word list and are disabled while \<open>checking_word\<close> is not null (line 497).
\<close>

record word_session =
  wui :: word_page
  in_flight :: "string list"

datatype word_event =
    Tap string "string list" nat
  | SettleCheck string "thrown + verdict"
  | ProceedAnyway "string list"
  | ChooseDifferent "string list"

fun word_step :: "word_session \<Rightarrow> word_event \<Rightarrow> word_session" where
  "word_step ss (Tap deck ws i) =
     (if i < length ws \<and> checking_word (wui ss) = None then
        (let (s, waiting) = handleWordClick_begin deck (wui ss) (ws ! i)
         in \<lparr>wui = s, in_flight = in_flight ss @ (if waiting then [ws ! i] else [])\<rparr>)
      else ss)"
| "word_step ss (SettleCheck w r) =
     (if w \<in> set (in_flight ss)
      then \<lparr>wui = on_check (wui ss) w r, in_flight = remove1 w (in_flight ss)\<rparr>
      else ss)"
| "word_step ss (ProceedAnyway ws) =
     (if ws \<noteq> [] then ss\<lparr>wui := proceedAnyway (wui ss)\<rparr> else ss)"
| "word_step ss (ChooseDifferent ws) =
     (if ws \<noteq> [] \<and> duplicate (wui ss) \<noteq> None
      then ss\<lparr>wui := (wui ss)\<lparr>duplicate := None\<rparr>\<rparr> else ss)"

definition word_run :: "string \<Rightarrow> word_event list \<Rightarrow> word_session" where
  "word_run selected evs =
     foldl word_step \<lparr>wui = initial_word_page selected, in_flight = []\<rparr> evs"

text \<open>
  The handler on top of the gateway. \<open>check_data\<close> is the object passed to
  \<^verbatim>\<open>api.checkDuplicate\<close> (lines 452-456). \<open>verdict_of\<close> is the result as the handler
  reads it inside its \<^verbatim>\<open>try\<close>: a property read on \<^verbatim>\<open>undefined\<close> or \<^verbatim>\<open>null\<close> throws,
  \<open>is_duplicate\<close> is tested for truthiness, and the two optional fields are taken at
  their declared type, a value of another type being read as absent.
\<close>

definition check_data :: "string \<Rightarrow> string \<Rightarrow> json" where
  "check_data w deck =
     JObj [(''word'', JStr w), (''deck_id'', JStr deck), (''source_language'', JStr [])]"

fun string_prop :: "(string \<times> json) list \<Rightarrow> string \<Rightarrow> string option" where
  "string_prop kvs name =
     (case map_of (rev kvs) name of Some (JStr s) \<Rightarrow> Some s | _ \<Rightarrow> None)"

fun verdict_of :: "json option \<Rightarrow> thrown + verdict" where
  "verdict_of None = Inl (Error null_read_message)"
| "verdict_of (Some JNull) = Inl (Error null_read_message)"
| "verdict_of (Some (JObj kvs)) =
     Inr \<lparr>is_duplicate = (case map_of (rev kvs) ''is_duplicate'' of
                             Some v \<Rightarrow> truthy v | None \<Rightarrow> False),
          duplicate_of_id = string_prop kvs ''duplicate_of_id'',
          explanation = string_prop kvs ''explanation''\<rparr>"
| "verdict_of (Some j) =
     Inr \<lparr>is_duplicate = False, duplicate_of_id = None, explanation = None\<rparr>"

text \<open>
  A word tap with the module state of the client: the duplicate check goes through
  \<open>request\<close>, which may change the credential before the handler's \<^verbatim>\<open>catch\<close> runs.
\<close>

definition tap_word ::
  "client \<Rightarrow> string \<Rightarrow> word_page \<Rightarrow> string \<Rightarrow> fetch_outcome \<Rightarrow> client \<times> word_page" where
  "tap_word c deck s w outcome =
     (if deck = [] then (c, fst (handleWordClick_begin deck s w))
      else
        (let (c', fetches, result) = api_checkDuplicate c (check_data w deck) outcome
         in (c', handleWordClick deck s w
                   (case result of Inl err \<Rightarrow> Inl err | Inr body \<Rightarrow> verdict_of body))))"

text \<open>
  The route \<^verbatim>\<open>/translate\<close> of App.tsx: inside \<^verbatim>\<open>ProtectedRoute\<close>, which renders a
  redirect to the login page when \<^verbatim>\<open>getToken()\<close> is falsy, and otherwise the translate
  page for the selected word and the selected deck.
\<close>

definition translate_route ::
  "client \<Rightarrow> word_page \<Rightarrow> string \<Rightarrow> (page \<times> cont option) option" where
  "translate_route c s deck =
     (if route s = ''/translate'' \<and> truthy_str (getToken c)
      then Some (mount \<lparr>word = selectedWord s, deckId = deck\<rparr>)
      else None)"

section \<open>Auxiliary definitions for the properties\<close>

text \<open>
  An Add Native Translation invocation in which the profile holds the native language
  \<open>fst x\<close> and the format call settles as \<open>snd x\<close>: with a draft or with a failure.
\<close>

definition native_invocation :: "string \<times> (thrown + card_data) \<Rightarrow> (thrown + reply) list" where
  "native_invocation x =
     [Inr (Me (Some (fst x))),
      (case snd x of Inl err \<Rightarrow> Inl err | Inr d \<Rightarrow> Inr (Draft d))]"

text \<open>The two calls that such an invocation makes for the chosen candidate.\<close>

definition native_calls :: "props \<Rightarrow> translation_option \<Rightarrow> string \<Rightarrow> api_call list" where
  "native_calls p c l =
     [GetMe,
      FormatCard (deckId p) (opt_word c) (opt_translation c) (opt_part_of_speech c)
        (opt_context c) (Some l)]"

text \<open>
  The draft to be held after a run of such invocations: the latest one produced, or
  the one held before when none was produced.
\<close>

fun latest_draft ::
  "card_data option \<Rightarrow> (string \<times> (thrown + card_data)) list \<Rightarrow> card_data option" where
  "latest_draft held [] = held"
| "latest_draft held ((l, Inr d) # xs) = latest_draft (Some d) xs"
| "latest_draft held ((l, Inl err) # xs) = latest_draft held xs"

text \<open>
  The invariant of the translate page machine: the Accept handler is suspended exactly
  while \<open>saving\<close> is set, and the Add Native Translation handler exactly while
  \<open>addingNative\<close> is set. The invariant of the word page machine: a duplicate check is
  in flight exactly while \<open>checking_word\<close> is not null.
\<close>

definition flags_match :: "session \<Rightarrow> bool" where
  "flags_match ss =
     (length (filter (\<lambda>x. is_accept_op (snd x)) (pending ss)) =
        (if saving (ui ss) then 1 else 0) \<and>
      length (filter (\<lambda>x. is_native_op (snd x)) (pending ss)) =
        (if addingNative (ui ss) then 1 else 0))"

definition word_single_flight :: "word_session \<Rightarrow> bool" where
  "word_single_flight ss =
     (length (in_flight ss) = (if checking_word (wui ss) = None then 0 else 1))"

text \<open>Concrete inputs used to exercise the properties.\<close>

definition ex_props :: props where
  "ex_props = \<lparr>word = ''Hund'', deckId = ''German''\<rparr>"

definition ex_option :: translation_option where
  "ex_option = \<lparr>opt_word = ''Hund'', opt_translation = ''dog'',
                opt_part_of_speech = None, opt_context = None\<rparr>"

definition ex_draft :: card_data where
  "ex_draft = \<lparr>note_type_id = ''basic'',
               card_fields = [(''Front'', ''Hund''), (''Back'', ''dog'')]\<rparr>"

definition ex_preview :: page where
  "ex_preview = loadTranslations ex_props initial_page
                  [Inr (Translations [ex_option]), Inr (Draft ex_draft)]"

definition ex_client :: client where
  "ex_client = \<lparr>authToken = None, localStorage = Map.empty, href = ''/''\<rparr>"

definition ex_unauthorized :: response where
  "ex_unauthorized = \<lparr>status = 401, statusText = ''Unauthorized'',
                      json_body = Inr (JObj [(''detail'', JStr ''Not authenticated'')])\<rparr>"

definition ex_logged_in :: client where
  "ex_logged_in =
     \<lparr>authToken = Some ''tok'', localStorage = [''token'' \<mapsto> ''tok''], href = ''/words''\<rparr>"

definition ex_unavailable :: response where
  "ex_unavailable = \<lparr>status = 503, statusText = ''Service Unavailable'',
                     json_body = Inl ''Unexpected token''\<rparr>"

definition ex_busy :: session where
  "ex_busy = run ex_props
     [Settle ex_props AwaitTranslate (Inr (Translations [ex_option])),
      Settle ex_props (AwaitFormat False) (Inr (Draft ex_draft)),
      Click AcceptCardButton, Click AddNativeButton]"

definition ex_checking :: word_session where
  "ex_checking = word_run [] [Tap ''German'' [''Hund''] 0]"

section \<open>Properties of the gateway and the session state\<close>

lemma request_fetches: "fst (snd (request c path options outcome)) = [fetch_of c path options]"
  by (simp add: request_def Let_def split: prod.splits)

lemma request_result:
  "snd (snd (request c path options outcome)) = snd (settle_request c path outcome)"
  by (simp add: request_def Let_def split: prod.splits)

lemma request_client:
  "fst (request c path options outcome) = fst (settle_request c path outcome)"
  by (simp add: request_def Let_def split: prod.splits)

text \<open>
  C9 (as amended). \<open>setToken\<close> always makes its argument the in-memory credential. A
  non-empty token also becomes the stored value; null and the empty string remove the
  stored value. On process start the in-memory credential is read from the store, so
  after a restart it is the token when that was non-empty and absent otherwise.
\<close>

theorem C9_setToken_sync:
  "authToken (setToken token c) = token \<and>
   localStorage (setToken token c) ''token'' = (if truthy_str token then token else None) \<and>
   authToken (load_client store location) = store ''token'' \<and>
   authToken (load_client (localStorage (setToken token c)) location) =
     (if truthy_str token then token else None)"
  by (cases token) (simp_all add: setToken_def load_client_def Let_def)

theorem C9_setToken_sync_witness:
  "authToken (setToken (Some ''abc'') ex_client) = Some ''abc'' \<and>
   localStorage (setToken (Some ''abc'') ex_client) ''token'' = Some ''abc'' \<and>
   authToken (load_client (localStorage (setToken (Some ''abc'') ex_client)) ''/'') = Some ''abc''"
  using C9_setToken_sync [of "Some ''abc''" ex_client Map.empty "''/''"] by simp

text \<open>
  C9 as stated fails for the empty string, which is a non-null token: it becomes the
  in-memory credential but not the stored value.
\<close>

theorem C9_empty_token_counterexample:
  "authToken (setToken (Some []) (load_client Map.empty ''/'')) = Some [] \<and>
   localStorage (setToken (Some []) (load_client Map.empty ''/'')) ''token'' \<noteq> Some []"
  by (simp add: setToken_def load_client_def Let_def)

text \<open>
  C3 (as amended). \<open>request\<close> issues exactly one fetch whatever the credential. Without a
  (truthy) credential it adds no Authorization header; with one it sends the bearer
  token. A 401 response to any path but the login path clears the credential in memory
  and in the store, redirects to the login page and makes the call throw.
\<close>

theorem C3_fetch_without_credential:
  "fst (snd (request c path options outcome)) = [fetch_of c path options] \<and>
   (\<not> truthy_str (authToken c) \<longrightarrow>
      f_headers (fetch_of c path options) ''Authorization'' = req_headers options ''Authorization'') \<and>
   (\<forall>t. authToken c = Some t \<and> t \<noteq> [] \<longrightarrow>
      f_headers (fetch_of c path options) ''Authorization'' = Some (''Bearer '' @ t)) \<and>
   (\<forall>res. outcome = Responded res \<and> status res = 401 \<and> \<not> prefix ''/auth/login'' path \<longrightarrow>
      authToken (fst (request c path options outcome)) = None \<and>
      localStorage (fst (request c path options outcome)) ''token'' = None \<and>
      href (fst (request c path options outcome)) = ''/login'' \<and>
      isl (snd (snd (request c path options outcome))))"
  apply (intro conjI allI impI)
        apply (rule request_fetches)
       apply (cases "authToken c"; simp add: fetch_of_def Let_def split: option.splits req_body.splits)
      apply (simp add: fetch_of_def Let_def split: option.splits req_body.splits)
     apply (simp_all add: request_client request_result settle_request_def ok_def Let_def
              setToken_def split: sum.splits)
  done

theorem C3_fetch_without_credential_witness:
  "\<not> truthy_str (authToken ex_client) \<and>
   fst (snd (request ex_client ''/auth/me'' no_options (Responded ex_unauthorized))) =
     [fetch_of ex_client ''/auth/me'' no_options] \<and>
   f_headers (fetch_of ex_client ''/auth/me'' no_options) ''Authorization'' = None \<and>
   href (fst (request ex_client ''/auth/me'' no_options (Responded ex_unauthorized))) = ''/login''"
  using C3_fetch_without_credential
          [of ex_client "''/auth/me''" no_options "Responded ex_unauthorized"]
  by (simp add: ex_client_def ex_unauthorized_def no_options_def)

text \<open>
  C3 as stated fails: \<open>getMe\<close> called with no credential does issue a fetch, and what
  it throws is the gateway's 401 answer.
\<close>

theorem C3_no_fast_fail_counterexample:
  "authToken ex_client = None \<and>
   map url (fst (snd (api_getMe ex_client (Responded ex_unauthorized)))) = [''/api/auth/me''] \<and>
   snd (snd (api_getMe ex_client (Responded ex_unauthorized))) = Inl (Error ''Not authenticated'')"
  by (simp add: api_getMe_def request_def settle_request_def fetch_of_def ok_def Let_def
      ex_client_def ex_unauthorized_def no_options_def API_BASE_def)




text \<open>
  C10 (as amended). For a response that is not 2xx, when the body does not parse, or
  parses to a value other than null that has no \<open>detail\<close>, \<open>request\<close> throws an Error
  whose message is the status text, whatever that is.
\<close>

theorem C10_status_text_fallback:
  "\<not> ok res \<Longrightarrow>
   (\<exists>m. json_body res = Inl m) \<or> (\<exists>j. json_body res = Inr j \<and> get_detail j = Inr None) \<Longrightarrow>
   snd (snd (request c path options (Responded res))) = Inl (Error (statusText res))"
  by (auto simp add: request_result settle_request_def Let_def)

theorem C10_status_text_fallback_witness:
  "\<not> ok \<lparr>status = 500, statusText = ''Internal Server Error'', json_body = Inl ''bad''\<rparr> \<and>
   snd (snd (request ex_client ''/translate'' no_options
      (Responded \<lparr>status = 500, statusText = ''Internal Server Error'', json_body = Inl ''bad''\<rparr>))) =
     Inl (Error ''Internal Server Error'')"
  using C10_status_text_fallback
          [of "\<lparr>status = 500, statusText = ''Internal Server Error'', json_body = Inl ''bad''\<rparr>"
              ex_client "''/translate''" no_options]
  by (simp add: ok_def)

text \<open>
  C10 as stated fails twice: with an empty status text the message thrown is empty, and
  a body that parses to null, which has no \<open>detail\<close>, makes the property read throw
  with a message that is not the status text.
\<close>

theorem C10_empty_message_counterexample:
  "snd (snd (request ex_client ''/translate'' no_options
      (Responded \<lparr>status = 500, statusText = [], json_body = Inl ''bad''\<rparr>))) = Inl (Error []) \<and>
   snd (snd (request ex_client ''/translate'' no_options
      (Responded \<lparr>status = 500, statusText = ''Internal Server Error'', json_body = Inr JNull\<rparr>))) \<noteq>
     Inl (Error ''Internal Server Error'')"
  by (simp add: request_result settle_request_def ok_def Let_def null_read_message_def)

section \<open>Properties of the translate page handlers\<close>

lemmas handler_defs =
  formatWithTranslation_begin_def on_format_def loadTranslations_begin_def on_translate_def
  handleAccept_begin_def on_create_def on_accept_def handleAddNativeTranslation_begin_def
  on_getMe_def setPhase_def issue_def Let_def

lemma ex_preview_state:
  "phase ex_preview = Preview \<and> cardData ex_preview = Some ex_draft \<and>
   chosenTranslation ex_preview = Some ex_option \<and>
   calls ex_preview = [Translate ''Hund'' [] [] ''German'',
                       FormatCard ''German'' ''Hund'' ''dog'' None None None]"
  by (simp add: ex_preview_def loadTranslations_def handler_defs initial_page_def
      ex_props_def ex_option_def)



text \<open>
  C5 (as amended). When translate succeeds with zero candidates, \<open>loadTranslations\<close>
  sets Choosing with an empty candidate list and an empty error: no error is shown, no
  format call is made, and the one button offered is Back to Words.
\<close>

theorem C5_zero_candidates:
  "phase (loadTranslations p s (Inr (Translations []) # rs)) = Choosing \<and>
   error (loadTranslations p s (Inr (Translations []) # rs)) = [] \<and>
   translation_list (loadTranslations p s (Inr (Translations []) # rs)) = [] \<and>
   shown_error p (loadTranslations p s (Inr (Translations []) # rs)) = None \<and>
   calls (loadTranslations p s (Inr (Translations []) # rs)) =
     calls s @ [Translate (word p) [] [] (deckId p)] \<and>
   buttons p (loadTranslations p s (Inr (Translations []) # rs)) = [BackToWords]"
  by (simp add: loadTranslations_def handler_defs shown_error_def buttons_def)

text \<open>C5 as stated fails: after a response with zero candidates no error is shown.\<close>

theorem C5_no_error_counterexample:
  "shown_error ex_props (loadTranslations ex_props initial_page [Inr (Translations [])]) = None \<and>
   error (loadTranslations ex_props initial_page [Inr (Translations [])]) = []"
  by (simp add: loadTranslations_def handler_defs shown_error_def)

lemma drive_accept:
  "cardData (drive p (s, Some AwaitAccept) rs) = cardData s \<and>
   filter is_create (calls (drive p (s, Some AwaitAccept) rs)) = filter is_create (calls s)"
proof (induction rs arbitrary: s)
  case Nil
  show ?case by simp
next
  case (Cons r rs)
  show ?case
  proof (cases r)
    case (Inl e)
    then show ?thesis by (simp add: handler_defs)
  next
    case (Inr y)
    then show ?thesis using Cons.IH by (cases y) (simp_all add: handler_defs)
  qed
qed

lemma drive_create:
  "cardData (drive p (s, Some AwaitCreate) rs) = cardData s \<and>
   filter is_create (calls (drive p (s, Some AwaitCreate) rs)) = filter is_create (calls s)"
proof (induction rs arbitrary: s)
  case Nil
  show ?case by simp
next
  case (Cons r rs)
  show ?case
  proof (cases r)
    case (Inl e)
    then show ?thesis by (simp add: handler_defs)
  next
    case (Inr y)
    then show ?thesis using Cons.IH
      by (cases y) (simp_all add: on_create_def issue_def drive_accept)
  qed
qed

lemma handleAccept_creates:
  assumes "cardData s = Some cd"
  shows "cardData (handleAccept p s rs) = Some cd \<and>
         length (filter is_create (calls (handleAccept p s rs))) =
           Suc (length (filter is_create (calls s)))"
  using assms by (simp add: handleAccept_def handleAccept_begin_def Let_def issue_def drive_create)

lemma accept_attempts_creates:
  "cardData s = Some cd \<Longrightarrow>
   cardData (accept_attempts p s attempts) = Some cd \<and>
   length (filter is_create (calls (accept_attempts p s attempts))) =
     length (filter is_create (calls s)) + length attempts"
proof (induction attempts arbitrary: s)
  case Nil
  then show ?case by (simp add: accept_attempts_def)
next
  case (Cons a attempts)
  from handleAccept_creates[OF Cons.prems, of p a]
  have 1: "cardData (handleAccept p s a) = Some cd"
    and 2: "length (filter is_create (calls (handleAccept p s a))) =
           Suc (length (filter is_create (calls s)))" by simp_all
  from Cons.IH[OF 1] 2 show ?case by (simp add: accept_attempts_def)
qed

text \<open>
  C1 (as amended). With a draft present, every Accept attempt calls \<open>createCard\<close> once,
  so after any run of attempts the number of \<open>createCard\<close> calls has grown by the number
  of attempts; and an attempt whose \<open>createCard\<close> succeeds calls \<open>acceptCard\<close> on the
  id that this \<open>createCard\<close> returned.
\<close>

theorem C1_create_per_attempt:
  assumes "cardData s = Some cd"
  shows "length (filter is_create (calls (accept_attempts p s attempts))) =
           length (filter is_create (calls s)) + length attempts \<and>
         calls (handleAccept p s [Inr (Created i), r]) =
           calls s @ [CreateCard (deckId p) (note_type_id cd) (card_fields cd) (word p),
                      AcceptCard i]"
proof
  show "length (filter is_create (calls (accept_attempts p s attempts))) =
           length (filter is_create (calls s)) + length attempts"
    using accept_attempts_creates[OF assms] by simp
  show "calls (handleAccept p s [Inr (Created i), r]) =
           calls s @ [CreateCard (deckId p) (note_type_id cd) (card_fields cd) (word p),
                      AcceptCard i]"
  proof (cases r)
    case (Inl e)
    then show ?thesis using assms by (simp add: handleAccept_def handler_defs)
  next
    case (Inr y)
    then show ?thesis using assms by (cases y) (simp_all add: handleAccept_def handler_defs)
  qed
qed

theorem C1_create_per_attempt_witness:
  "cardData ex_preview = Some ex_draft \<and>
   length (filter is_create (calls (accept_attempts ex_props ex_preview
      [[Inr (Created ''c1''), Inl (Error ''down'')], [Inr (Created ''c2''), Inr Accepted]]))) = 2"
  using C1_create_per_attempt [of ex_preview ex_draft ex_props
          "[[Inr (Created ''c1''), Inl (Error ''down'')], [Inr (Created ''c2''), Inr Accepted]]"]
        ex_preview_state
  by simp

text \<open>
  C1 as stated fails: after \<open>createCard\<close> succeeded and \<open>acceptCard\<close> failed, the retry
  calls \<open>createCard\<close> a second time and accepts the second card, not the first.
\<close>

theorem C1_retry_creates_again_counterexample:
  "calls (accept_attempts ex_props ex_preview
      [[Inr (Created ''c1''), Inl (Error ''down'')], [Inr (Created ''c2''), Inr Accepted]]) =
     [Translate ''Hund'' [] [] ''German'',
      FormatCard ''German'' ''Hund'' ''dog'' None None None,
      CreateCard ''German'' ''basic'' [(''Front'', ''Hund''), (''Back'', ''dog'')] ''Hund'',
      AcceptCard ''c1'',
      CreateCard ''German'' ''basic'' [(''Front'', ''Hund''), (''Back'', ''dog'')] ''Hund'',
      AcceptCard ''c2'']"
  using ex_preview_state
  by (simp add: accept_attempts_def handleAccept_def handler_defs ex_props_def ex_draft_def)

lemma add_native_once:
  assumes "chosenTranslation s = Some c" and "l \<noteq> []"
  shows "chosenTranslation (handleAddNativeTranslation p s (native_invocation (l, r))) = Some c \<and>
         cardData (handleAddNativeTranslation p s (native_invocation (l, r))) =
           (case r of Inr d \<Rightarrow> Some d | Inl err \<Rightarrow> cardData s) \<and>
         calls (handleAddNativeTranslation p s (native_invocation (l, r))) =
           calls s @ native_calls p c l \<and>
         visited (handleAddNativeTranslation p s (native_invocation (l, r))) =
           visited s @ [Formatting, (case r of Inr d \<Rightarrow> Preview | Inl err \<Rightarrow> Choosing)] \<and>
         phase (handleAddNativeTranslation p s (native_invocation (l, r))) =
           (case r of Inr d \<Rightarrow> Preview | Inl err \<Rightarrow> Choosing) \<and>
         \<not> addingNative (handleAddNativeTranslation p s (native_invocation (l, r)))"
  using assms
  by (cases r)
     (simp_all add: handleAddNativeTranslation_def native_invocation_def native_calls_def
        handler_defs)

lemma add_native_many:
  "chosenTranslation s = Some c \<Longrightarrow> \<forall>x \<in> set xs. fst x \<noteq> [] \<Longrightarrow>
   cardData (add_native_invocations p s (map native_invocation xs)) =
     latest_draft (cardData s) xs \<and>
   calls (add_native_invocations p s (map native_invocation xs)) =
     calls s @ concat (map (\<lambda>x. native_calls p c (fst x)) xs)"
proof (induction xs arbitrary: s)
  case Nil
  then show ?case by (simp add: add_native_invocations_def)
next
  case (Cons x xs)
  obtain l r where x: "x = (l, r)" by (cases x)
  with Cons.prems have l: "l \<noteq> []" by simp
  let ?s = "handleAddNativeTranslation p s (native_invocation (l, r))"
  from add_native_once[OF Cons.prems(1) l, of p r]
  have c: "chosenTranslation ?s = Some c"
    and d: "cardData ?s = (case r of Inr d \<Rightarrow> Some d | Inl err \<Rightarrow> cardData s)"
    and k: "calls ?s = calls s @ native_calls p c l" by simp_all
  from Cons.prems(2) have rest: "\<forall>x \<in> set xs. fst x \<noteq> []" by simp
  have step: "add_native_invocations p s (map native_invocation (x # xs)) =
              add_native_invocations p ?s (map native_invocation xs)"
    by (simp add: add_native_invocations_def x)
  have held: "latest_draft (cardData s) (x # xs) = latest_draft (cardData ?s) xs"
    using d x by (cases r) simp_all
  have "cardData (add_native_invocations p ?s (map native_invocation xs)) =
          latest_draft (cardData ?s) xs \<and>
        calls (add_native_invocations p ?s (map native_invocation xs)) =
          calls ?s @ concat (map (\<lambda>x. native_calls p c (fst x)) xs)"
    by (rule Cons.IH[OF c rest])
  then show ?case
    unfolding step held using k x by simp
qed

text \<open>
  C6 (as amended). With a candidate chosen, every Add Native Translation invocation
  that finds a native language reaches formatting: it sets the Formatting phase and
  calls \<open>formatCard\<close> with the chosen candidate and that language. When the call yields
  a draft, that draft replaces the one held and the phase is Preview; when it fails,
  the draft held is kept and the phase is Choosing. After any run of such invocations
  the draft held is the latest one produced, or the one held before when none was.
\<close>

theorem C6_draft_replaced:
  assumes "chosenTranslation s = Some c" and "\<forall>x \<in> set xs. fst x \<noteq> []"
  shows "cardData (add_native_invocations p s (map native_invocation xs)) =
           latest_draft (cardData s) xs \<and>
         calls (add_native_invocations p s (map native_invocation xs)) =
           calls s @ concat (map (\<lambda>x. native_calls p c (fst x)) xs) \<and>
         (l \<noteq> [] \<longrightarrow>
            cardData (handleAddNativeTranslation p s (native_invocation (l, Inr d))) = Some d \<and>
            visited (handleAddNativeTranslation p s (native_invocation (l, Inr d))) =
              visited s @ [Formatting, Preview] \<and>
            calls (handleAddNativeTranslation p s (native_invocation (l, Inr d))) =
              calls s @ native_calls p c l \<and>
            cardData (handleAddNativeTranslation p s (native_invocation (l, Inl err))) =
              cardData s \<and>
            visited (handleAddNativeTranslation p s (native_invocation (l, Inl err))) =
              visited s @ [Formatting, Choosing] \<and>
            calls (handleAddNativeTranslation p s (native_invocation (l, Inl err))) =
              calls s @ native_calls p c l)"
proof (intro conjI impI)
  show "cardData (add_native_invocations p s (map native_invocation xs)) =
          latest_draft (cardData s) xs"
    using add_native_many[OF assms] by simp
  show "calls (add_native_invocations p s (map native_invocation xs)) =
          calls s @ concat (map (\<lambda>x. native_calls p c (fst x)) xs)"
    using add_native_many[OF assms] by simp
next
  assume l: "l \<noteq> []"
  note ok = add_native_once[OF assms(1) l, of p "Inr d"]
  note ko = add_native_once[OF assms(1) l, of p "Inl err"]
  show "cardData (handleAddNativeTranslation p s (native_invocation (l, Inr d))) = Some d"
    using ok by simp
  show "visited (handleAddNativeTranslation p s (native_invocation (l, Inr d))) =
          visited s @ [Formatting, Preview]"
    using ok by simp
  show "calls (handleAddNativeTranslation p s (native_invocation (l, Inr d))) =
          calls s @ native_calls p c l"
    using ok by simp
  show "cardData (handleAddNativeTranslation p s (native_invocation (l, Inl err))) = cardData s"
    using ko by simp
  show "visited (handleAddNativeTranslation p s (native_invocation (l, Inl err))) =
          visited s @ [Formatting, Choosing]"
    using ko by simp
  show "calls (handleAddNativeTranslation p s (native_invocation (l, Inl err))) =
          calls s @ native_calls p c l"
    using ko by simp
qed

theorem C6_draft_replaced_witness:
  "chosenTranslation ex_preview = Some ex_option \<and>
   cardData (add_native_invocations ex_props ex_preview
      (map native_invocation
         [(''English'', Inr (ex_draft\<lparr>note_type_id := ''native''\<rparr>)),
          (''English'', Inl (Error ''down''))])) =
     Some (ex_draft\<lparr>note_type_id := ''native''\<rparr>) \<and>
   calls (handleAddNativeTranslation ex_props ex_preview
            (native_invocation (''English'', Inr ex_draft))) =
     calls ex_preview @ native_calls ex_props ex_option ''English''"
  using C6_draft_replaced
          [where s = ex_preview and c = ex_option and p = ex_props and l = "''English''"
             and d = ex_draft and err = "Error ''down''"
             and xs = "[(''English'', Inr (ex_draft\<lparr>note_type_id := ''native''\<rparr>)),
                        (''English'', Inl (Error ''down''))]"]
        ex_preview_state
  by simp

text \<open>
  C6 as stated fails: an invocation that reaches formatting, and whose format call
  fails, produces no draft and leaves the previous one in place.
\<close>

theorem C6_failed_format_counterexample:
  "calls (handleAddNativeTranslation ex_props ex_preview
            (native_invocation (''English'', Inl (Error ''down'')))) =
     [Translate ''Hund'' [] [] ''German'',
      FormatCard ''German'' ''Hund'' ''dog'' None None None,
      GetMe,
      FormatCard ''German'' ''Hund'' ''dog'' None None (Some ''English'')] \<and>
   cardData (handleAddNativeTranslation ex_props ex_preview
               (native_invocation (''English'', Inl (Error ''down'')))) = Some ex_draft \<and>
   phase (handleAddNativeTranslation ex_props ex_preview
            (native_invocation (''English'', Inl (Error ''down'')))) = Choosing"
  using ex_preview_state
  by (simp add: handleAddNativeTranslation_def native_invocation_def handler_defs
      ex_props_def ex_option_def)

section \<open>Properties of the word selection page\<close>

lemma check_fails_unchanged:
  assumes "\<forall>res. outcome = Responded res \<longrightarrow> status res \<noteq> 401"
  shows "fst (api_checkDuplicate c data outcome) = c"
proof (cases outcome)
  case (Rejected m)
  then show ?thesis
    by (simp add: api_checkDuplicate_def request_client settle_request_def)
next
  case (Responded res)
  with assms have "status res \<noteq> 401" by simp
  with Responded show ?thesis
    by (simp add: api_checkDuplicate_def request_client settle_request_def Let_def
        split: sum.splits)
qed

lemma tap_word_failed:
  assumes "deck \<noteq> []" and "snd (snd (api_checkDuplicate c (check_data w deck) outcome)) = Inl err"
  shows "snd (tap_word c deck s w outcome) = handleWordClick deck s w (Inl err) \<and>
         fst (tap_word c deck s w outcome) = fst (api_checkDuplicate c (check_data w deck) outcome)"
  using assms
  by (cases "api_checkDuplicate c (check_data w deck) outcome") (simp add: tap_word_def)

lemma handleWordClick_failed:
  assumes "deck \<noteq> []"
  shows "selectedWord (handleWordClick deck s w (Inl err)) = w \<and>
         route (handleWordClick deck s w (Inl err)) = ''/translate'' \<and>
         checking_word (handleWordClick deck s w (Inl err)) = None \<and>
         duplicate (handleWordClick deck s w (Inl err)) = None \<and>
         checks (handleWordClick deck s w (Inl err)) = checks s @ [CheckDuplicate w deck []]"
  using assms
  by (simp add: handleWordClick_def handleWordClick_begin_def on_check_def select_word_def)

text \<open>
  C4 (as amended). With a deck selected and a credential present, a tap on a non-empty
  word whose duplicate check fails with anything but a 401 response leaves the
  credential alone, selects the tapped word and navigates to the translate route, with
  \<open>checking_word\<close> back to null and no duplicate warning set; the translate page is
  mounted there for that word, in the Translating phase, with the translate call for
  the word issued. When the check is answered with 401, the credential is cleared, the
  location is set to the login page, and the translate page is not mounted.
\<close>

theorem C4_check_failure_proceeds:
  assumes "deck \<noteq> []"
  shows "(w \<noteq> [] \<and> truthy_str (authToken c) \<and>
          snd (snd (api_checkDuplicate c (check_data w deck) outcome)) = Inl err \<and>
          (\<forall>res. outcome = Responded res \<longrightarrow> status res \<noteq> 401) \<longrightarrow>
            fst (tap_word c deck s w outcome) = c \<and>
            selectedWord (snd (tap_word c deck s w outcome)) = w \<and>
            route (snd (tap_word c deck s w outcome)) = ''/translate'' \<and>
            checking_word (snd (tap_word c deck s w outcome)) = None \<and>
            duplicate (snd (tap_word c deck s w outcome)) = None \<and>
            checks (snd (tap_word c deck s w outcome)) = checks s @ [CheckDuplicate w deck []] \<and>
            translate_route (fst (tap_word c deck s w outcome))
                (snd (tap_word c deck s w outcome)) deck =
              Some (mount \<lparr>word = w, deckId = deck\<rparr>) \<and>
            phase (fst (mount \<lparr>word = w, deckId = deck\<rparr>)) = Translating \<and>
            snd (mount \<lparr>word = w, deckId = deck\<rparr>) = Some AwaitTranslate \<and>
            calls (fst (mount \<lparr>word = w, deckId = deck\<rparr>)) = [Translate w [] [] deck]) \<and>
         (status res401 = 401 \<longrightarrow>
            authToken (fst (tap_word c deck s w (Responded res401))) = None \<and>
            href (fst (tap_word c deck s w (Responded res401))) = ''/login'' \<and>
            translate_route (fst (tap_word c deck s w (Responded res401)))
                (snd (tap_word c deck s w (Responded res401))) deck = None)"
proof (intro conjI impI)
  assume h: "w \<noteq> [] \<and> truthy_str (authToken c) \<and>
          snd (snd (api_checkDuplicate c (check_data w deck) outcome)) = Inl err \<and>
          (\<forall>res. outcome = Responded res \<longrightarrow> status res \<noteq> 401)"
  then have w: "w \<noteq> []" and tok: "truthy_str (authToken c)"
    and fails: "snd (snd (api_checkDuplicate c (check_data w deck) outcome)) = Inl err"
    and no401: "\<forall>res. outcome = Responded res \<longrightarrow> status res \<noteq> 401" by simp_all
  note t = tap_word_failed[OF assms fails, of s]
  note k = handleWordClick_failed[OF assms, of s w err]
  have c: "fst (tap_word c deck s w outcome) = c"
    using t check_fails_unchanged[OF no401] by simp
  show "fst (tap_word c deck s w outcome) = c" by (rule c)
  show "selectedWord (snd (tap_word c deck s w outcome)) = w" using t k by simp
  show "route (snd (tap_word c deck s w outcome)) = ''/translate''" using t k by simp
  show "checking_word (snd (tap_word c deck s w outcome)) = None" using t k by simp
  show "duplicate (snd (tap_word c deck s w outcome)) = None" using t k by simp
  show "checks (snd (tap_word c deck s w outcome)) = checks s @ [CheckDuplicate w deck []]"
    using t k by simp
  show "translate_route (fst (tap_word c deck s w outcome))
            (snd (tap_word c deck s w outcome)) deck =
          Some (mount \<lparr>word = w, deckId = deck\<rparr>)"
    using t k tok by (simp add: c translate_route_def getToken_def)
  show "phase (fst (mount \<lparr>word = w, deckId = deck\<rparr>)) = Translating"
    using w by (simp add: mount_def initial_page_def handler_defs)
  show "snd (mount \<lparr>word = w, deckId = deck\<rparr>) = Some AwaitTranslate"
    using w by (simp add: mount_def handler_defs)
  show "calls (fst (mount \<lparr>word = w, deckId = deck\<rparr>)) = [Translate w [] [] deck]"
    using w by (simp add: mount_def initial_page_def handler_defs)
next
  assume u: "status res401 = 401"
  have r: "fst (tap_word c deck s w (Responded res401)) =
             (setToken None c)\<lparr>href := ''/login''\<rparr>"
    using assms u
    by (simp add: tap_word_def api_checkDuplicate_def request_def settle_request_def
        ok_def Let_def split: prod.splits)
  show "authToken (fst (tap_word c deck s w (Responded res401))) = None"
    by (simp add: r setToken_def)
  show "href (fst (tap_word c deck s w (Responded res401))) = ''/login''"
    by (simp add: r)
  show "translate_route (fst (tap_word c deck s w (Responded res401)))
            (snd (tap_word c deck s w (Responded res401))) deck = None"
    by (simp add: r translate_route_def getToken_def setToken_def)
qed

theorem C4_check_failure_proceeds_witness:
  "''German'' \<noteq> [] \<and> ''Hund'' \<noteq> [] \<and> truthy_str (authToken ex_logged_in) \<and>
   snd (snd (api_checkDuplicate ex_logged_in (check_data ''Hund'' ''German'')
               (Responded ex_unavailable))) = Inl (Error ''Service Unavailable'') \<and>
   status ex_unavailable \<noteq> 401 \<and>
   translate_route
     (fst (tap_word ex_logged_in ''German'' (initial_word_page []) ''Hund''
             (Responded ex_unavailable)))
     (snd (tap_word ex_logged_in ''German'' (initial_word_page []) ''Hund''
             (Responded ex_unavailable))) ''German'' =
     Some (mount \<lparr>word = ''Hund'', deckId = ''German''\<rparr>) \<and>
   calls (fst (mount \<lparr>word = ''Hund'', deckId = ''German''\<rparr>)) =
     [Translate ''Hund'' [] [] ''German''] \<and>
   status ex_unauthorized = 401 \<and>
   translate_route
     (fst (tap_word ex_logged_in ''German'' (initial_word_page []) ''Hund''
             (Responded ex_unauthorized)))
     (snd (tap_word ex_logged_in ''German'' (initial_word_page []) ''Hund''
             (Responded ex_unauthorized))) ''German'' = None"
proof -
  have g: "''German'' \<noteq> []" and h: "''Hund'' \<noteq> []" by simp_all
  have tok: "truthy_str (authToken ex_logged_in)" by (simp add: ex_logged_in_def)
  have fails: "snd (snd (api_checkDuplicate ex_logged_in (check_data ''Hund'' ''German'')
                 (Responded ex_unavailable))) = Inl (Error ''Service Unavailable'')"
    by (simp add: ex_unavailable_def api_checkDuplicate_def request_result settle_request_def
        ok_def Let_def)
  have s503: "status ex_unavailable \<noteq> 401" by (simp add: ex_unavailable_def)
  then have no401: "\<forall>res. Responded ex_unavailable = Responded res \<longrightarrow> status res \<noteq> 401"
    by simp
  have s401: "status ex_unauthorized = 401" by (simp add: ex_unauthorized_def)
  from C4_check_failure_proceeds
         [where deck = "''German''" and w = "''Hund''" and c = ex_logged_in
            and outcome = "Responded ex_unavailable" and err = "Error ''Service Unavailable''"
            and s = "initial_word_page []" and ?res401.0 = ex_unauthorized, OF g]
       h tok fails no401 s401 s503 g
  show ?thesis by blast
qed

text \<open>
  C4 as stated fails twice. A duplicate check that fails with a 401 clears the
  credential, so the protected translate route redirects to the login page and the
  translate page is never mounted. And for the empty word the translate page is mounted
  without starting a translation: no call is issued and only Back to Words is offered.
\<close>

theorem C4_unauthorized_check_counterexample:
  "snd (snd (api_checkDuplicate ex_logged_in (check_data ''Hund'' ''German'')
               (Responded ex_unauthorized))) = Inl (Error ''Not authenticated'') \<and>
   authToken (fst (tap_word ex_logged_in ''German'' (initial_word_page []) ''Hund''
                     (Responded ex_unauthorized))) = None \<and>
   translate_route
     (fst (tap_word ex_logged_in ''German'' (initial_word_page []) ''Hund''
             (Responded ex_unauthorized)))
     (snd (tap_word ex_logged_in ''German'' (initial_word_page []) ''Hund''
             (Responded ex_unauthorized))) ''German'' = None \<and>
   translate_route
     (fst (tap_word ex_logged_in ''German'' (initial_word_page []) []
             (Responded ex_unavailable)))
     (snd (tap_word ex_logged_in ''German'' (initial_word_page []) []
             (Responded ex_unavailable))) ''German'' = Some (initial_page, None) \<and>
   calls initial_page = [] \<and>
   buttons \<lparr>word = [], deckId = ''German''\<rparr> initial_page = [BackToWords]"
  by (simp add: tap_word_def api_checkDuplicate_def request_def settle_request_def ok_def
      Let_def setToken_def getToken_def translate_route_def ex_logged_in_def
      ex_unauthorized_def ex_unavailable_def handleWordClick_def handleWordClick_begin_def
      on_check_def select_word_def initial_word_page_def mount_def initial_page_def
      buttons_def)

section \<open>Calls in flight\<close>

lemma filter_remove1_other: "\<not> Q k \<Longrightarrow> filter Q (remove1 k P) = filter Q P"
  by (induction P) auto

lemma filter_remove1_one:
  "k \<in> set P \<Longrightarrow> Q k \<Longrightarrow> Suc (length (filter Q (remove1 k P))) = length (filter Q P)"
  by (induction P) auto

lemma accept_enabled:
  "AcceptCardButton \<in> set (buttons p s) \<Longrightarrow> phase s = Preview \<and> \<not> saving s \<and> cardData s \<noteq> None"
  by (cases "phase s"; cases "cardData s"; auto simp add: buttons_def split: if_splits)

lemma add_native_enabled:
  "AddNativeButton \<in> set (buttons p s) \<Longrightarrow> phase s = Preview \<and> \<not> addingNative s"
  by (cases "phase s"; cases "cardData s"; auto simp add: buttons_def split: if_splits)

lemma accept_not_native: "is_accept_op k \<Longrightarrow> \<not> is_native_op k"
  by (cases k) auto

text \<open>What each piece of a handler does to the two flags, and what it awaits next.\<close>

lemma on_create_flags:
  assumes "saving s" and "on_create s r = (s', k')"
  shows "addingNative s' = addingNative s \<and>
         (case k' of None \<Rightarrow> \<not> saving s' | Some k'' \<Rightarrow> is_accept_op k'' \<and> saving s')"
  using assms by (cases r) (auto simp: on_create_def issue_def)

lemma on_accept_flags:
  assumes "on_accept s r = (s', k')"
  shows "addingNative s' = addingNative s \<and> k' = None \<and> \<not> saving s'"
  using assms by (cases r) (auto simp: on_accept_def setPhase_def)

lemma format_begin_flags:
  assumes "formatWithTranslation_begin p s option l native = (s', k')"
  shows "saving s' = saving s \<and> addingNative s' = addingNative s \<and>
         k' = Some (AwaitFormat native)"
  using assms by (auto simp: formatWithTranslation_begin_def setPhase_def issue_def Let_def)

lemma on_format_flags:
  assumes "on_format s native r = (s', k')"
  shows "saving s' = saving s \<and> k' = None \<and>
         addingNative s' = (if native then False else addingNative s)"
  using assms by (cases r; cases native) (auto simp: on_format_def setPhase_def Let_def)

lemma on_translate_flags:
  assumes "on_translate p s r = (s', k')"
  shows "saving s' = saving s \<and> addingNative s' = addingNative s \<and>
         (k' = None \<or> k' = Some (AwaitFormat False))"
proof (cases r)
  case (Inl e)
  with assms show ?thesis by (auto simp: on_translate_def setPhase_def)
next
  case (Inr ts)
  show ?thesis
  proof (cases "length ts = 1")
    case True
    with Inr assms
    have "formatWithTranslation_begin p (s\<lparr>translation_list := ts\<rparr>) (ts ! 0) None False = (s', k')"
      by (simp add: on_translate_def Let_def)
    from format_begin_flags[OF this] show ?thesis by simp
  next
    case False
    with Inr assms show ?thesis by (auto simp: on_translate_def setPhase_def Let_def)
  qed
qed

lemma on_getMe_flags:
  assumes "addingNative s" and "on_getMe p s option r = (s', k')"
  shows "saving s' = saving s \<and>
         (case k' of None \<Rightarrow> \<not> addingNative s'
          | Some k'' \<Rightarrow> k'' = AwaitFormat True \<and> addingNative s')"
proof (cases r)
  case (Inl e)
  with assms show ?thesis by (auto simp: on_getMe_def)
next
  case (Inr l)
  show ?thesis
  proof (cases "truthy_str l")
    case True
    with Inr assms
    have "formatWithTranslation_begin p s option l True = (s', k')"
      by (simp add: on_getMe_def)
    from format_begin_flags[OF this] assms(1) show ?thesis by simp
  next
    case False
    with Inr assms show ?thesis by (auto simp: on_getMe_def)
  qed
qed

lemma resume_accept:
  assumes "is_accept_op k" and "saving s" and "resume p s k r = (s', k')"
  shows "addingNative s' = addingNative s \<and>
         (case k' of None \<Rightarrow> \<not> saving s' | Some k'' \<Rightarrow> is_accept_op k'' \<and> saving s')"
proof (cases r)
  case (Inl e)
  with assms show ?thesis
    by (cases k) (auto dest: on_create_flags[rotated] on_accept_flags)
next
  case (Inr y)
  with assms show ?thesis
    by (cases k; cases y) (auto dest: on_create_flags[rotated] on_accept_flags)
qed

lemma resume_native:
  assumes "is_native_op k" and "addingNative s" and "resume p s k r = (s', k')"
  shows "saving s' = saving s \<and>
         (case k' of None \<Rightarrow> \<not> addingNative s' | Some k'' \<Rightarrow> is_native_op k'' \<and> addingNative s')"
proof (cases r)
  case (Inl e)
  with assms show ?thesis
    by (cases k) (auto dest: on_getMe_flags[rotated] on_format_flags split: option.splits)
next
  case (Inr y)
  with assms show ?thesis
    by (cases k; cases y)
       (auto dest: on_getMe_flags[rotated] on_format_flags split: option.splits)
qed

lemma resume_plain:
  assumes "\<not> is_accept_op k" and "\<not> is_native_op k" and "resume p s k r = (s', k')"
  shows "saving s' = saving s \<and> addingNative s' = addingNative s \<and>
         (\<forall>k''. k' = Some k'' \<longrightarrow> \<not> is_accept_op k'' \<and> \<not> is_native_op k'')"
proof (cases r)
  case (Inl e)
  with assms show ?thesis
    by (cases k) (auto dest: on_translate_flags on_format_flags)
next
  case (Inr y)
  with assms show ?thesis
    by (cases k; cases y) (auto dest: on_translate_flags on_format_flags)
qed

text \<open>Adding and replacing a suspended handler, in terms of the two counts.\<close>

lemma count_suspended:
  "length (filter (\<lambda>x. Q (snd x)) (suspended p k)) =
     (case k of None \<Rightarrow> 0 | Some k' \<Rightarrow> if Q k' then 1 else 0)"
  by (cases k) (simp_all add: suspended_def)

lemma count_replaced:
  assumes "(p, k) \<in> set P"
  shows "length (filter (\<lambda>x. Q (snd x)) (remove1 (p, k) P @ suspended p k')) +
           (if Q k then 1 else 0) =
         length (filter (\<lambda>x. Q (snd x)) P) +
           (case k' of None \<Rightarrow> 0 | Some k'' \<Rightarrow> if Q k'' then 1 else 0)"
proof (cases "Q k")
  case True
  with filter_remove1_one[OF assms, of "\<lambda>x. Q (snd x)"] show ?thesis
    by (simp add: count_suspended)
next
  case False
  with filter_remove1_other[of "\<lambda>x. Q (snd x)" "(p, k)" P] show ?thesis
    by (simp add: count_suspended)
qed

lemma count_pos:
  "(p, k) \<in> set P \<Longrightarrow> Q k \<Longrightarrow> 0 < length (filter (\<lambda>x. Q (snd x)) P)"
  by (induction P) auto

lemma flags_match_mounted: "flags_match (mounted p)"
  by (simp add: flags_match_def mounted_def mount_def initial_page_def suspended_def
      loadTranslations_begin_def setPhase_def issue_def Let_def)

lemma click_flags:
  assumes "click p s b = (s', k')"
  shows "(case k' of
            None \<Rightarrow> saving s' = saving s \<and> addingNative s' = addingNative s
          | Some k'' \<Rightarrow>
              (is_accept_op k'' \<longrightarrow> \<not> saving s \<and> saving s' \<and> addingNative s' = addingNative s) \<and>
              (is_native_op k'' \<longrightarrow> \<not> addingNative s \<and> addingNative s' \<and> saving s' = saving s) \<and>
              (\<not> is_accept_op k'' \<and> \<not> is_native_op k'' \<longrightarrow>
                 saving s' = saving s \<and> addingNative s' = addingNative s))"
proof (cases "b \<in> set (buttons p s)")
  case False
  with assms show ?thesis by (simp add: click_def)
next
  case True
  show ?thesis
  proof (cases b)
    case AcceptCardButton
    with True accept_enabled[of p s] have "\<not> saving s" and "cardData s \<noteq> None" by simp_all
    with AcceptCardButton True assms show ?thesis
      by (auto simp: click_def handleAccept_begin_def issue_def Let_def)
  next
    case AddNativeButton
    with True add_native_enabled[of p s] have "\<not> addingNative s" by simp
    with AddNativeButton True assms show ?thesis
      by (cases "chosenTranslation s")
         (auto simp: click_def handleAddNativeTranslation_begin_def issue_def Let_def)
  next
    case (Candidate i)
    with True assms
    have "formatWithTranslation_begin p s (translation_list s ! i) None False = (s', k')"
      by (simp add: click_def)
    from format_begin_flags[OF this] show ?thesis by simp
  qed (use True assms in \<open>simp_all add: click_def\<close>)
qed

lemma click_preserves:
  assumes inv: "flags_match ss"
  shows "flags_match (step ss (Click b))"
proof -
  obtain s' k' where c: "click (current ss) (ui ss) b = (s', k')"
    by (cases "click (current ss) (ui ss) b")
  from click_flags[OF c] inv show ?thesis
    by (cases k') (auto simp: c flags_match_def suspended_def accept_not_native)
qed

lemma rerender_flags:
  assumes "rerender p p' s = (s', k')"
  shows "saving s' = saving s \<and> addingNative s' = addingNative s \<and>
         (k' = None \<or> k' = Some AwaitTranslate)"
  using assms
  by (auto simp: rerender_def loadTranslations_begin_def setPhase_def issue_def Let_def
      split: if_splits)

lemma rerender_preserves:
  assumes inv: "flags_match ss"
  shows "flags_match (step ss (Rerender p'))"
proof -
  obtain s' k' where r: "rerender (current ss) p' (ui ss) = (s', k')"
    by (cases "rerender (current ss) p' (ui ss)")
  from rerender_flags[OF r] inv show ?thesis
    by (cases k') (auto simp: r flags_match_def suspended_def)
qed

lemma settle_preserves:
  assumes inv: "flags_match ss"
  shows "flags_match (step ss (Settle p k r))"
proof (cases "(p, k) \<in> set (pending ss)")
  case False
  with inv show ?thesis by simp
next
  case True
  obtain s' k' where res: "resume p (ui ss) k r = (s', k')" by (cases "resume p (ui ss) k r")
  let ?P' = "remove1 (p, k) (pending ss) @ suspended p k'"
  note A = count_replaced[OF True, of is_accept_op k']
  note N = count_replaced[OF True, of is_native_op k']
  from inv have a: "length (filter (\<lambda>x. is_accept_op (snd x)) (pending ss)) =
                      (if saving (ui ss) then 1 else 0)"
    and n: "length (filter (\<lambda>x. is_native_op (snd x)) (pending ss)) =
              (if addingNative (ui ss) then 1 else 0)"
    by (simp_all add: flags_match_def)
  have "length (filter (\<lambda>x. is_accept_op (snd x)) ?P') = (if saving s' then 1 else 0) \<and>
        length (filter (\<lambda>x. is_native_op (snd x)) ?P') = (if addingNative s' then 1 else 0)"
  proof (cases "is_accept_op k")
    case acc: True
    then have nn: "\<not> is_native_op k" by (rule accept_not_native)
    from count_pos[OF True, of is_accept_op] a acc have sav: "saving (ui ss)"
      by (cases "saving (ui ss)") simp_all
    from resume_accept[OF acc sav res] A N a n acc nn sav show ?thesis
      by (cases k') (auto simp: accept_not_native)
  next
    case nacc: False
    show ?thesis
    proof (cases "is_native_op k")
      case nat: True
      from count_pos[OF True, of is_native_op] n nat have ad: "addingNative (ui ss)"
        by (cases "addingNative (ui ss)") simp_all
      from resume_native[OF nat ad res] A N a n nacc nat ad show ?thesis
        by (cases k') (auto dest: accept_not_native)
    next
      case False
      from resume_plain[OF nacc False res] A N a n nacc False show ?thesis
        by (cases k') auto
    qed
  qed
  with True res show ?thesis by (simp add: flags_match_def)
qed

lemma step_preserves: "flags_match ss \<Longrightarrow> flags_match (step ss ev)"
  by (cases ev) (simp_all only: click_preserves settle_preserves rerender_preserves)

lemma foldl_preserves: "flags_match ss \<Longrightarrow> flags_match (foldl step ss evs)"
  by (induction evs arbitrary: ss) (simp_all add: step_preserves)

lemma flags_match_run: "flags_match (run p evs)"
  unfolding run_def by (rule foldl_preserves) (rule flags_match_mounted)

lemma filter_create_le:
  "length (filter (\<lambda>x. snd x = AwaitCreate) P) \<le> length (filter (\<lambda>x. is_accept_op (snd x)) P)"
  by (induction P) auto

lemma word_step_preserves:
  "word_single_flight ss \<Longrightarrow> word_single_flight (word_step ss ev)"
proof (cases ev)
  case (Tap deck ws i)
  then show "word_single_flight ss \<Longrightarrow> ?thesis"
    by (auto simp: word_single_flight_def handleWordClick_begin_def select_word_def)
next
  case (SettleCheck w r)
  assume inv: "word_single_flight ss"
  show ?thesis
  proof (cases "w \<in> set (in_flight ss)")
    case False
    with inv SettleCheck show ?thesis by simp
  next
    case True
    with inv have "length (in_flight ss) = 1"
      by (cases "checking_word (wui ss)") (auto simp: word_single_flight_def)
    with True have "in_flight ss = [w]" by (cases "in_flight ss") auto
    with SettleCheck show ?thesis
      by (simp add: word_single_flight_def on_check_def Let_def)
  qed
next
  case (ProceedAnyway ws)
  then show "word_single_flight ss \<Longrightarrow> ?thesis"
    by (auto simp: word_single_flight_def proceedAnyway_def select_word_def split: option.splits)
next
  case (ChooseDifferent ws)
  then show "word_single_flight ss \<Longrightarrow> ?thesis"
    by (auto simp: word_single_flight_def)
qed

lemma word_foldl_preserves:
  "word_single_flight ss \<Longrightarrow> word_single_flight (foldl word_step ss evs)"
  by (induction evs arbitrary: ss) (simp_all add: word_step_preserves)

lemma word_single_flight_run: "word_single_flight (word_run selected evs)"
  unfolding word_run_def
  by (rule word_foldl_preserves) (simp add: word_single_flight_def initial_word_page_def)

text \<open>
  C8 (as amended). In every state that a mounted translate page reaches, through any
  clicks, settled calls and renders with new props, at most one call of the Accept
  handler (\<open>createCard\<close> or \<open>acceptCard\<close>) is in flight, so never two \<open>createCard\<close>
  calls, and at most one call of the Add Native Translation handler (the profile read
  or its format call); an Accept click while \<open>saving\<close> is set and an Add Native
  Translation click while \<open>addingNative\<close> is set change nothing. In every state that a
  mounted word page reaches at most one duplicate check is in flight, and a word tap
  while one is pending changes nothing.
\<close>

theorem C8_single_flight_per_handler:
  "creates_in_flight (run p evs) \<le> 1 \<and>
   accepts_in_flight (run p evs) \<le> 1 \<and>
   natives_in_flight (run p evs) \<le> 1 \<and>
   (saving (ui ss) \<longrightarrow> step ss (Click AcceptCardButton) = ss) \<and>
   (addingNative (ui ss) \<longrightarrow> step ss (Click AddNativeButton) = ss) \<and>
   length (in_flight (word_run selected wevs)) \<le> 1 \<and>
   (checking_word (wui wss) \<noteq> None \<longrightarrow> word_step wss (Tap deck ws i) = wss)"
proof -
  have inv: "flags_match (run p evs)" by (rule flags_match_run)
  then have a: "accepts_in_flight (run p evs) \<le> 1"
    and n: "natives_in_flight (run p evs) \<le> 1"
    by (simp_all add: flags_match_def accepts_in_flight_def natives_in_flight_def)
  have c: "creates_in_flight (run p evs) \<le> 1"
    using a filter_create_le[of "pending (run p evs)"]
    by (simp add: creates_in_flight_def accepts_in_flight_def)
  have s1: "saving (ui ss) \<longrightarrow> step ss (Click AcceptCardButton) = ss"
    using accept_enabled[of "current ss" "ui ss"] by (auto simp: click_def suspended_def)
  have s2: "addingNative (ui ss) \<longrightarrow> step ss (Click AddNativeButton) = ss"
    using add_native_enabled[of "current ss" "ui ss"] by (auto simp: click_def suspended_def)
  have w: "length (in_flight (word_run selected wevs)) \<le> 1"
    using word_single_flight_run[of selected wevs] by (simp add: word_single_flight_def)
  have t: "checking_word (wui wss) \<noteq> None \<longrightarrow> word_step wss (Tap deck ws i) = wss"
    by simp
  from c a n s1 s2 w t show ?thesis by blast
qed

lemma ex_busy_state:
  "saving (ui ex_busy) \<and> addingNative (ui ex_busy) \<and>
   pending ex_busy = [(ex_props, AwaitCreate), (ex_props, AwaitGetMe ex_option)]"
  by (simp add: ex_busy_def run_def mounted_def mount_def ex_props_def initial_page_def
      suspended_def click_def buttons_def handler_defs)

lemma ex_checking_state:
  "checking_word (wui ex_checking) = Some ''Hund'' \<and> in_flight ex_checking = [''Hund'']"
  by (simp add: ex_checking_def word_run_def initial_word_page_def handleWordClick_begin_def)

theorem C8_single_flight_per_handler_witness:
  "saving (ui ex_busy) \<and> addingNative (ui ex_busy) \<and>
   checking_word (wui ex_checking) \<noteq> None \<and>
   step ex_busy (Click AcceptCardButton) = ex_busy \<and>
   step ex_busy (Click AddNativeButton) = ex_busy \<and>
   word_step ex_checking (Tap ''German'' [''Hund''] 0) = ex_checking \<and>
   creates_in_flight ex_busy \<le> 1 \<and> natives_in_flight ex_busy \<le> 1"
  using C8_single_flight_per_handler
          [where p = ex_props and ss = ex_busy and wss = ex_checking
             and deck = "''German''" and ws = "[''Hund'']" and i = 0
             and evs = "[Settle ex_props AwaitTranslate (Inr (Translations [ex_option])),
                         Settle ex_props (AwaitFormat False) (Inr (Draft ex_draft)),
                         Click AcceptCardButton, Click AddNativeButton]",
           folded ex_busy_def]
        ex_busy_state ex_checking_state
  by simp

text \<open>
  C8 as stated fails twice. With Accept clicked and its \<open>createCard\<close> still pending,
  the Add Native Translation button is enabled, and clicking it puts the profile read
  in flight beside it. And when the selected word changes while the page is mounted and
  its translate call is pending, the effect starts a second translate call.
\<close>

theorem C8_two_in_flight_counterexample:
  "pending (run ex_props
      [Settle ex_props AwaitTranslate (Inr (Translations [ex_option])),
       Settle ex_props (AwaitFormat False) (Inr (Draft ex_draft)),
       Click AcceptCardButton, Click AddNativeButton]) =
     [(ex_props, AwaitCreate), (ex_props, AwaitGetMe ex_option)] \<and>
   calls (ui (run ex_props
      [Settle ex_props AwaitTranslate (Inr (Translations [ex_option])),
       Settle ex_props (AwaitFormat False) (Inr (Draft ex_draft)),
       Click AcceptCardButton, Click AddNativeButton])) =
     [Translate ''Hund'' [] [] ''German'',
      FormatCard ''German'' ''Hund'' ''dog'' None None None,
      CreateCard ''German'' ''basic'' [(''Front'', ''Hund''), (''Back'', ''dog'')] ''Hund'',
      GetMe] \<and>
   pending (run ex_props [Rerender (ex_props\<lparr>word := ''Katze''\<rparr>)]) =
     [(ex_props, AwaitTranslate), (ex_props\<lparr>word := ''Katze''\<rparr>, AwaitTranslate)] \<and>
   calls (ui (run ex_props [Rerender (ex_props\<lparr>word := ''Katze''\<rparr>)])) =
     [Translate ''Hund'' [] [] ''German'', Translate ''Katze'' [] [] ''German'']"
  by (simp add: run_def mounted_def mount_def rerender_def ex_props_def ex_option_def
      ex_draft_def initial_page_def suspended_def click_def buttons_def handler_defs)


end
